theory Spec2Isabelle
  imports Complex_Main
begin

section \<open>Data model of ssdutils.py\<close>

text \<open>
  The module works on Python floats and ints. Floats are idealised as the reals
  (\<^typ>\<open>real\<close>): every statement below is about exact arithmetic, rounding is outside
  the model. Python ints are \<^typ>\<open>int\<close>; positions in a list are \<^typ>\<open>nat\<close>.

  Every exception the module can raise is a value of \<open>error\<close>; a function that can raise
  returns \<open>error + 'a\<close> with \<open>Inl\<close> for the exception.
\<close>

datatype error =
    RuntimeError string
  | ZeroDivisionError
  | IndexError
  | KeyError
  | ValueError

text \<open>
  The named tuples. \<open>Size\<close>, \<open>Point\<close>, \<open>Score\<close> and \<open>Overlap\<close> are imported by the
  module from \<open>utils\<close>; they are plain tuples of the fields the module reads and writes.
  \<open>Size\<close> holds ints in a preset and floats in an anchor, hence the type parameter.
  A box is whatever has a \<open>center\<close> and a \<open>size\<close>.
\<close>

record 'a Size =
  size_w :: 'a
  size_h :: 'a

record Point =
  point_x :: real
  point_y :: real

record SSDPreset =
  image_size :: "int Size"
  num_maps :: int
  map_sizes :: "int Size list"
  num_anchors :: int

record Anchor =
  anchor_center :: Point
  anchor_size :: "real Size"
  anchor_x :: int
  anchor_y :: int
  anchor_scale :: real
  anchor_map :: nat

record Box =
  box_center :: Point
  box_size :: "real Size"

record Score =
  score_idx :: nat
  score_score :: real

record Overlap =
  overlap_best :: "Score option"
  overlap_good :: "Score list"

section \<open>The preset registry\<close>

definition vgg300 :: SSDPreset where
  "vgg300 =
     \<lparr>image_size = \<lparr>size_w = 300, size_h = 300\<rparr>,
      num_maps = 6,
      map_sizes = [\<lparr>size_w = 38, size_h = 38\<rparr>,
                   \<lparr>size_w = 19, size_h = 19\<rparr>,
                   \<lparr>size_w = 10, size_h = 10\<rparr>,
                   \<lparr>size_w = 5, size_h = 5\<rparr>,
                   \<lparr>size_w = 3, size_h = 3\<rparr>,
                   \<lparr>size_w = 1, size_h = 1\<rparr>],
      num_anchors = 11639\<rparr>"

definition vgg500 :: SSDPreset where
  "vgg500 =
     \<lparr>image_size = \<lparr>size_w = 500, size_h = 500\<rparr>,
      num_maps = 6,
      map_sizes = [\<lparr>size_w = 63, size_h = 63\<rparr>,
                   \<lparr>size_w = 32, size_h = 32\<rparr>,
                   \<lparr>size_w = 16, size_h = 16\<rparr>,
                   \<lparr>size_w = 8, size_h = 8\<rparr>,
                   \<lparr>size_w = 6, size_h = 6\<rparr>,
                   \<lparr>size_w = 4, size_h = 4\<rparr>],
      num_anchors = 32174\<rparr>"

text \<open>The module-level dictionary \<open>SSD_PRESETS\<close>, as it is when the module is loaded.\<close>

definition SSD_PRESETS :: "string \<rightharpoonup> SSDPreset" where
  "SSD_PRESETS = [''vgg300'' \<mapsto> vgg300, ''vgg500'' \<mapsto> vgg500]"

text \<open>
  \<open>get_preset_by_name\<close> reads the global dictionary and writes nothing. The dictionary is
  the only state of the module, so the function takes it and returns it with the result:
  \<open>raise RuntimeError('No such preset: '+pname)\<close> when the name is not a key,
  \<open>SSD_PRESETS[pname]\<close> otherwise.
\<close>

definition get_preset_by_name ::
  "(string \<rightharpoonup> SSDPreset) \<Rightarrow> string \<Rightarrow> (error + SSDPreset) \<times> (string \<rightharpoonup> SSDPreset)" where
  "get_preset_by_name presets pname =
     (if pname \<notin> dom presets
      then (Inl (RuntimeError (''No such preset: '' @ pname)), presets)
      else (Inr (the (presets pname)), presets))"

section \<open>Jaccard overlap\<close>

type_synonym params = "real \<times> real \<times> real \<times> real"

text \<open>
  The four early returns, then intersection over union. The division of two floats raises
  \<open>ZeroDivisionError\<close> when the divisor is zero; nothing else in the function can raise.
\<close>

fun jaccard_overlap :: "params \<Rightarrow> params \<Rightarrow> error + real" where
  "jaccard_overlap (xmin1, xmax1, ymin1, ymax1) (xmin2, xmax2, ymin2, ymax2) =
     (if xmax2 \<le> xmin1 then Inr 0
      else if xmax1 \<le> xmin2 then Inr 0
      else if ymax2 \<le> ymin1 then Inr 0
      else if ymax1 \<le> ymin2 then Inr 0
      else
        let xmin = max xmin1 xmin2;
            xmax = min xmax1 xmax2;
            ymin = max ymin1 ymin2;
            ymax = min ymax1 ymax2;
            w = xmax - xmin;
            h = ymax - ymin;
            intersection = w * h;
            w1 = xmax1 - xmin1;
            h1 = ymax1 - ymin1;
            w2 = xmax2 - xmin2;
            h2 = ymax2 - ymin2;
            union = w1 * h1 + w2 * h2 - intersection
        in if union = 0 then Inl ZeroDivisionError else Inr (intersection / union))"

text \<open>Vocabulary for statements about boxes in (xmin, xmax, ymin, ymax) form.\<close>

fun well_formed :: "params \<Rightarrow> bool" where
  "well_formed (xmin, xmax, ymin, ymax) = (xmin \<le> xmax \<and> ymin \<le> ymax)"

fun area :: "params \<Rightarrow> real" where
  "area (xmin, xmax, ymin, ymax) = (xmax - xmin) * (ymax - ymin)"

section \<open>Regression targets\<close>

text \<open>
  \<open>compute_location\<close> fills a four-element array in order. Each division raises
  \<open>ZeroDivisionError\<close> on a zero divisor and \<open>math.log\<close> raises \<open>ValueError\<close> on an
  argument that is not positive; the first statement that raises decides the result.
\<close>

definition compute_location :: "Box \<Rightarrow> Anchor \<Rightarrow> error + real list" where
  "compute_location box anchor =
     (let bc = box_center box; bs = box_size box;
          ac = anchor_center anchor; as = anchor_size anchor
      in if size_w as = 0 then Inl ZeroDivisionError
         else if size_h as = 0 then Inl ZeroDivisionError
         else if size_w bs / size_w as \<le> 0 then Inl ValueError
         else if size_h bs / size_h as \<le> 0 then Inl ValueError
         else Inr [(point_x bc - point_x ac) / size_w as,
                   (point_y bc - point_y ac) / size_h as,
                   ln (size_w bs / size_w as),
                   ln (size_h bs / size_h as)])"

text \<open>
  The module does not compute exponentials; the statement about decoding a box from
  deltas and encoding it again does. In double precision \<open>math.exp\<close> returns \<open>0.0\<close> for an
  argument below \<open>-746\<close> (the smallest positive double is about \<open>exp (-744.44)\<close>). This
  underflow is the one effect of floating point that is written down here; rounding stays
  outside the model.
\<close>

definition exp_double :: "real \<Rightarrow> real" where
  "exp_double x = (if x < - 746 then 0 else exp x)"

section \<open>Anchor generation\<close>

definition SCALE_MIN :: real where
  "SCALE_MIN = 0.2"

definition SCALE_MAX :: real where
  "SCALE_MAX = 0.9"

definition SCALE_DIFF :: real where
  "SCALE_DIFF = SCALE_MAX - SCALE_MIN"

text \<open>
  The first loop of \<open>get_anchors_for_preset\<close>: \<open>k\<close> runs over \<open>range(1, num_maps+1)\<close>,
  here the list \<open>[1..num_maps]\<close>, and each turn divides by \<open>num_maps-1\<close> before it
  appends. The divisor is an int, so the division raises when it is zero.
\<close>

fun scales_loop :: "int \<Rightarrow> int list \<Rightarrow> real list \<Rightarrow> error + real list" where
  "scales_loop n [] scales = Inr scales"
| "scales_loop n (k # ks) scales =
     (if n - 1 = 0 then Inl ZeroDivisionError
      else
        let scale = SCALE_MIN + SCALE_DIFF / real_of_int (n - 1) * real_of_int (k - 1)
        in scales_loop n ks (scales @ [scale]))"

definition compute_scales :: "SSDPreset \<Rightarrow> error + real list" where
  "compute_scales preset = scales_loop (num_maps preset) [1..num_maps preset] []"

text \<open>
  The aspect ratios after \<open>map(sqrt, ...)\<close>; \<open>1/3\<close> is the true division of Python 3.
  All five arguments are positive, so \<open>math.sqrt\<close> does not raise and no ratio is zero.
\<close>

definition aspect_ratios :: "real list" where
  "aspect_ratios = map sqrt [1, 2, 3, 0.5, 1 / 3]"

text \<open>
  The list stored under the key \<open>scales[i]\<close> by turn \<open>i\<close> of the second loop: one pair per
  aspect ratio and, when \<open>i < len(scales)-1\<close>, the extra square box. \<open>math.sqrt\<close> raises
  on a negative argument only, and the product of two scales is never negative (lemma
  \<open>scales_positive\<close> below), so the square root is the total one of the reals.
\<close>

definition box_sizes_at :: "real list \<Rightarrow> nat \<Rightarrow> (real \<times> real) list" where
  "box_sizes_at scales i =
     (let s = scales ! i
      in map (\<lambda>ratio. (s * ratio, s / ratio)) aspect_ratios @
         (if int i < int (length scales) - 1
          then (let s_prime = sqrt (scales ! i * scales ! (i + 1)) in [(s_prime, s_prime)])
          else []))"

text \<open>
  \<open>box_sizes\<close> is a dictionary keyed by the scale value itself: a later turn with an equal
  scale overwrites the entry of an earlier one.
\<close>

fun box_sizes_loop ::
  "real list \<Rightarrow> nat list \<Rightarrow> (real \<rightharpoonup> (real \<times> real) list) \<Rightarrow> (real \<rightharpoonup> (real \<times> real) list)" where
  "box_sizes_loop scales [] box_sizes = box_sizes"
| "box_sizes_loop scales (i # is) box_sizes =
     box_sizes_loop scales is (box_sizes(scales ! i \<mapsto> box_sizes_at scales i))"

definition compute_box_sizes :: "real list \<Rightarrow> (real \<rightharpoonup> (real \<times> real) list)" where
  "compute_box_sizes scales = box_sizes_loop scales [0..<length scales] Map.empty"

text \<open>
  The three inner loops for one feature map: \<open>i\<close> and \<open>j\<close> run over \<open>range(fk)\<close>, here
  \<open>[0..fk-1]\<close>. The outer variable \<open>i\<close> gives the centre's first coordinate and the
  inner variable \<open>j\<close> the second; the anchor is built with \<open>j\<close> in its field \<open>x\<close> and
  \<open>i\<close> in its field \<open>y\<close>.
\<close>

definition level_anchors :: "real \<Rightarrow> int \<Rightarrow> nat \<Rightarrow> (real \<times> real) list \<Rightarrow> Anchor list" where
  "level_anchors s fk k sizes =
     concat (map (\<lambda>i.
       let x = (real_of_int i + 0.5) / real_of_int fk
       in concat (map (\<lambda>j.
            let y = (real_of_int j + 0.5) / real_of_int fk
            in map (\<lambda>size.
                 \<lparr>anchor_center = \<lparr>point_x = x, point_y = y\<rparr>,
                  anchor_size = \<lparr>size_w = fst size, size_h = snd size\<rparr>,
                  anchor_x = j, anchor_y = i, anchor_scale = s, anchor_map = k\<rparr>) sizes)
          [0..fk - 1]))
      [0..fk - 1])"

text \<open>
  The third loop: \<open>k\<close> runs over \<open>range(len(scales))\<close>. \<open>preset.map_sizes[k]\<close> raises
  \<open>IndexError\<close> past the end of the list; \<open>box_sizes[s]\<close> is read only when the grid has a
  cell, and raises \<open>KeyError\<close> on a missing key.
\<close>

fun anchors_loop ::
  "SSDPreset \<Rightarrow> real list \<Rightarrow> (real \<rightharpoonup> (real \<times> real) list) \<Rightarrow> nat list \<Rightarrow> Anchor list
     \<Rightarrow> error + Anchor list" where
  "anchors_loop preset scales box_sizes [] anchors = Inr anchors"
| "anchors_loop preset scales box_sizes (k # ks) anchors =
     (let s = scales ! k
      in if length (map_sizes preset) \<le> k then Inl IndexError
         else
           let fk = size_w (map_sizes preset ! k)
           in if fk \<le> 0 then anchors_loop preset scales box_sizes ks anchors
              else (case box_sizes s of
                      None \<Rightarrow> Inl KeyError
                    | Some sizes \<Rightarrow>
                        anchors_loop preset scales box_sizes ks
                          (anchors @ level_anchors s fk k sizes)))"

definition get_anchors_for_preset :: "SSDPreset \<Rightarrow> error + Anchor list" where
  "get_anchors_for_preset preset =
     (case compute_scales preset of
        Inl e \<Rightarrow> Inl e
      | Inr scales \<Rightarrow>
          anchors_loop preset scales (compute_box_sizes scales) [0..<length scales] [])"

section \<open>Matching a box against the anchors\<close>

text \<open>
  \<open>prop2abs\<close> is imported from \<open>utils\<close> and is not part of this module: it is a parameter
  of the model. \<open>imgsize\<close> is the constant \<open>Size(1000, 1000)\<close>.
\<close>

type_synonym prop2abs = "Point \<Rightarrow> real Size \<Rightarrow> int Size \<Rightarrow> params"

definition imgsize :: "int Size" where
  "imgsize = \<lparr>size_w = 1000, size_h = 1000\<rparr>"

text \<open>
  The loop of \<open>compute_overlap\<close> over the anchors from position \<open>i\<close> on, with the values of
  \<open>best\<close> and \<open>good\<close> so far. An exception of \<open>jaccard_overlap\<close> ends the call. A zero
  overlap skips the rest of the turn (\<open>continue\<close>). \<open>not best\<close> holds only for \<open>None\<close>: a
  \<open>Score\<close> is a tuple of two fields and never empty.
\<close>

fun overlap_loop ::
  "prop2abs \<Rightarrow> params \<Rightarrow> real \<Rightarrow> nat \<Rightarrow> Anchor list \<Rightarrow> Score option \<Rightarrow> Score list
     \<Rightarrow> error + Overlap" where
  "overlap_loop p2a bparams threshold i [] best good =
     Inr \<lparr>overlap_best = best, overlap_good = good\<rparr>"
| "overlap_loop p2a bparams threshold i (anchor # rest) best good =
     (let aparams = p2a (anchor_center anchor) (anchor_size anchor) imgsize
      in case jaccard_overlap bparams aparams of
           Inl e \<Rightarrow> Inl e
         | Inr jaccard \<Rightarrow>
             if jaccard = 0 then overlap_loop p2a bparams threshold (i + 1) rest best good
             else
               let best' = (if best = None \<or> score_score (the best) < jaccard
                            then Some \<lparr>score_idx = i, score_score = jaccard\<rparr>
                            else best);
                   good' = (if jaccard > threshold
                            then good @ [\<lparr>score_idx = i, score_score = jaccard\<rparr>]
                            else good)
               in overlap_loop p2a bparams threshold (i + 1) rest best' good')"

definition compute_overlap :: "prop2abs \<Rightarrow> Box \<Rightarrow> Anchor list \<Rightarrow> real \<Rightarrow> error + Overlap" where
  "compute_overlap p2a box anchors threshold =
     (let bparams = p2a (box_center box) (box_size box) imgsize
      in overlap_loop p2a bparams threshold 0 anchors None [])"

text \<open>
  Vocabulary for the invariant of the matcher's loop. After \<open>n\<close> anchors with the overlaps
  \<open>ov 0\<close>, ..., \<open>ov (n - 1)\<close>, the value \<open>B\<close> of \<open>best\<close> is \<open>None\<close> exactly when all of them
  are zero, and otherwise it is the score of a position whose overlap is not zero, is the
  greatest among the overlaps that are not zero, and is greater than each of them at an
  earlier position.
\<close>

definition best_ok :: "(nat \<Rightarrow> real) \<Rightarrow> nat \<Rightarrow> Score option \<Rightarrow> bool" where
  "best_ok ov n B \<longleftrightarrow>
     (B = None \<longleftrightarrow> (\<forall>j<n. ov j = 0)) \<and>
     (\<forall>s. B = Some s \<longrightarrow>
        score_idx s < n \<and> score_score s = ov (score_idx s) \<and> score_score s \<noteq> 0 \<and>
        (\<forall>j<n. ov j \<noteq> 0 \<longrightarrow> ov j \<le> score_score s) \<and>
        (\<forall>j<score_idx s. ov j \<noteq> 0 \<longrightarrow> ov j < score_score s))"

text \<open>
  Modelled from the spec: \<open>prop2abs\<close> of the module \<open>utils\<close>, which is not among the
  sources. The spec describes it as the conversion from the proportional form (centre and
  size, as fractions of the image) to the absolute form (xmin, xmax, ymin, ymax) for a
  reference image size. It is used below only to run the matcher on concrete boxes; every
  general statement about the matcher holds for any conversion.
\<close>

definition prop2abs :: prop2abs where
  "prop2abs center size' img =
     (let width2 = size_w size' * real_of_int (size_w img) / 2;
          height2 = size_h size' * real_of_int (size_h img) / 2;
          cx = point_x center * real_of_int (size_w img);
          cy = point_y center * real_of_int (size_h img)
      in (cx - width2, cx + width2, cy - height2, cy + height2))"

section \<open>Properties of the overlap calculator\<close>

lemma jaccard_overlap_guarded:
  assumes "xmax2 \<le> xmin1 \<or> xmax1 \<le> xmin2 \<or> ymax2 \<le> ymin1 \<or> ymax1 \<le> ymin2"
  shows "jaccard_overlap (xmin1, xmax1, ymin1, ymax1) (xmin2, xmax2, ymin2, ymax2) = Inr 0"
  using assms by auto

text \<open>
  On one axis, two well-formed intervals that pass the guards meet in an interval that is
  not negative and not longer than either of them.
\<close>

lemma inter_bounds:
  fixes a1 b1 a2 b2 :: real
  assumes "a1 \<le> b1" "a2 \<le> b2" "a1 < b2" "a2 < b1"
  shows "0 \<le> min b1 b2 - max a1 a2"
    and "min b1 b2 - max a1 a2 \<le> b1 - a1"
    and "min b1 b2 - max a1 a2 \<le> b2 - a2"
  using assms by (auto simp: min_def max_def)

lemma inter_area_bounds:
  fixes xmin1 :: real
  assumes "xmin1 \<le> xmax1" "ymin1 \<le> ymax1" "xmin2 \<le> xmax2" "ymin2 \<le> ymax2"
    and "xmin1 < xmax2" "xmin2 < xmax1" "ymin1 < ymax2" "ymin2 < ymax1"
  defines "i \<equiv> (min xmax1 xmax2 - max xmin1 xmin2) * (min ymax1 ymax2 - max ymin1 ymin2)"
  shows "0 \<le> i"
    and "i \<le> (xmax1 - xmin1) * (ymax1 - ymin1)"
    and "i \<le> (xmax2 - xmin2) * (ymax2 - ymin2)"
proof -
  note bx = inter_bounds [OF assms(1) assms(3) assms(5) assms(6)]
  note by' = inter_bounds [OF assms(2) assms(4) assms(7) assms(8)]
  show "0 \<le> i"
    unfolding i_def using bx(1) by'(1) by (rule mult_nonneg_nonneg)
  show "i \<le> (xmax1 - xmin1) * (ymax1 - ymin1)"
    unfolding i_def using bx(1,2) by'(1,2) by (intro mult_mono) auto
  show "i \<le> (xmax2 - xmin2) * (ymax2 - ymin2)"
    unfolding i_def using bx(1,3) by'(1,3) by (intro mult_mono) auto
qed

text \<open>
  C5, as the code has it. The claim holds for two well-formed boxes (xmin \<open>\<le>\<close> xmax and
  ymin \<open>\<le>\<close> ymax) of which at least one has positive area: the call returns a number, so
  the union it divides by is not zero, and the number is 0 when one of the two boxes has
  zero area. Two boxes that touch at a boundary, or lie apart, give 0 whatever their shape.
\<close>

theorem jaccard_overlap_no_zero_division:
  assumes "well_formed p" and "well_formed q" and "0 < area p \<or> 0 < area q"
  shows "jaccard_overlap p q \<noteq> Inl ZeroDivisionError \<and>
         (\<exists>v. jaccard_overlap p q = Inr v) \<and>
         (area p = 0 \<or> area q = 0 \<longrightarrow> jaccard_overlap p q = Inr 0) \<and>
         (fst (snd q) \<le> fst p \<or> fst (snd p) \<le> fst q \<or>
          snd (snd (snd q)) \<le> fst (snd (snd p)) \<or> snd (snd (snd p)) \<le> fst (snd (snd q))
            \<longrightarrow> jaccard_overlap p q = Inr 0)"
proof -
  obtain xmin1 xmax1 ymin1 ymax1 where p: "p = (xmin1, xmax1, ymin1, ymax1)"
    by (cases p) auto
  obtain xmin2 xmax2 ymin2 ymax2 where q: "q = (xmin2, xmax2, ymin2, ymax2)"
    by (cases q) auto
  show ?thesis
  proof (cases "xmax2 \<le> xmin1 \<or> xmax1 \<le> xmin2 \<or> ymax2 \<le> ymin1 \<or> ymax1 \<le> ymin2")
    case True
    then have "jaccard_overlap p q = Inr 0"
      unfolding p q by (rule jaccard_overlap_guarded)
    then show ?thesis by simp
  next
    case False
    then have g: "xmin1 < xmax2" "xmin2 < xmax1" "ymin1 < ymax2" "ymin2 < ymax1"
      by auto
    from assms(1,2)
    have wf: "xmin1 \<le> xmax1" "ymin1 \<le> ymax1" "xmin2 \<le> xmax2" "ymin2 \<le> ymax2"
      by (simp_all add: p q)
    define i where
      "i = (min xmax1 xmax2 - max xmin1 xmin2) * (min ymax1 ymax2 - max ymin1 ymin2)"
    note ib = inter_area_bounds [OF wf g, folded i_def]
    define u where "u = area p + area q - i"
    have upos: "0 < u"
      using assms(3) ib unfolding u_def p q by auto
    have j: "jaccard_overlap p q = Inr (i / u)"
      using g upos unfolding p q u_def i_def by (simp add: Let_def)
    have "i = 0" if "area p = 0 \<or> area q = 0"
      using that ib unfolding p q by auto
    with j False show ?thesis by (auto simp: p q)
  qed
qed

theorem jaccard_overlap_no_zero_division_witness:
  "well_formed (0, 10, 0, 10) \<and> well_formed (5, 5, 2, 8) \<and>
   (0 < area (0, 10, 0, 10) \<or> 0 < area (5, 5, 2, 8)) \<and>
   jaccard_overlap (0, 10, 0, 10) (5, 5, 2, 8) \<noteq> Inl ZeroDivisionError \<and>
   area (5, 5, 2, 8) = 0 \<and>
   jaccard_overlap (0, 10, 0, 10) (5, 5, 2, 8) = Inr 0"
  using jaccard_overlap_no_zero_division [of "(0, 10, 0, 10)" "(5, 5, 2, 8)"] by simp

text \<open>
  C5 as stated fails: a box of zero width that crosses a box of zero height passes the four
  guards, both areas and the intersection are 0, and the division is 0 by 0.
\<close>

theorem jaccard_overlap_zero_division_counterexample:
  "well_formed (0, 0, 0, 10) \<and> well_formed (- 5, 5, 3, 3) \<and>
   area (0, 0, 0, 10) = 0 \<and> area (- 5, 5, 3, 3) = 0 \<and>
   jaccard_overlap (0, 0, 0, 10) (- 5, 5, 3, 3) = Inl ZeroDivisionError"
  by simp

text \<open>
  C8, as the code has it. \<open>jaccard_overlap\<close> neither rejects nor repairs a malformed box
  (xmax below xmin, or ymax below ymin): it runs the guards and the formula on the
  coordinates as they are given. For a malformed first box: its overlap with itself is 0;
  against any second box the result is 0 when a guard fires, the division error when the
  signed union is 0, and otherwise the signed intersection divided by the signed union;
  the same holds with the two boxes exchanged, since the function is symmetric. Where xmax
  is below xmin and no guard fires, the width of the intersection is the negative width of
  the malformed box itself.
\<close>

theorem jaccard_overlap_malformed:
  assumes "xmax1 < xmin1 \<or> ymax1 < ymin1"
  shows "jaccard_overlap (xmin1, xmax1, ymin1, ymax1) (xmin1, xmax1, ymin1, ymax1) = Inr 0 \<and>
         jaccard_overlap (xmin1, xmax1, ymin1, ymax1) (xmin2, xmax2, ymin2, ymax2) =
           (if xmax2 \<le> xmin1 \<or> xmax1 \<le> xmin2 \<or> ymax2 \<le> ymin1 \<or> ymax1 \<le> ymin2
            then Inr 0
            else
              let i = (min xmax1 xmax2 - max xmin1 xmin2) * (min ymax1 ymax2 - max ymin1 ymin2);
                  u = (xmax1 - xmin1) * (ymax1 - ymin1) + (xmax2 - xmin2) * (ymax2 - ymin2) - i
              in if u = 0 then Inl ZeroDivisionError else Inr (i / u)) \<and>
         jaccard_overlap (xmin2, xmax2, ymin2, ymax2) (xmin1, xmax1, ymin1, ymax1) =
           jaccard_overlap (xmin1, xmax1, ymin1, ymax1) (xmin2, xmax2, ymin2, ymax2) \<and>
         (xmax1 < xmin1 \<and> xmin2 < xmax1 \<and> xmin1 < xmax2 \<and> ymin1 < ymax2 \<and> ymin2 < ymax1 \<longrightarrow>
            jaccard_overlap (xmin1, xmax1, ymin1, ymax1) (xmin2, xmax2, ymin2, ymax2) =
              (let i = (xmax1 - xmin1) * (min ymax1 ymax2 - max ymin1 ymin2);
                   u = (xmax1 - xmin1) * (ymax1 - ymin1) + (xmax2 - xmin2) * (ymax2 - ymin2) - i
               in if u = 0 then Inl ZeroDivisionError else Inr (i / u)))"
proof (intro conjI impI)
  show "jaccard_overlap (xmin1, xmax1, ymin1, ymax1) (xmin1, xmax1, ymin1, ymax1) = Inr 0"
    using assms by (intro jaccard_overlap_guarded) auto
next
  show "jaccard_overlap (xmin1, xmax1, ymin1, ymax1) (xmin2, xmax2, ymin2, ymax2) =
           (if xmax2 \<le> xmin1 \<or> xmax1 \<le> xmin2 \<or> ymax2 \<le> ymin1 \<or> ymax1 \<le> ymin2
            then Inr 0
            else
              let i = (min xmax1 xmax2 - max xmin1 xmin2) * (min ymax1 ymax2 - max ymin1 ymin2);
                  u = (xmax1 - xmin1) * (ymax1 - ymin1) + (xmax2 - xmin2) * (ymax2 - ymin2) - i
              in if u = 0 then Inl ZeroDivisionError else Inr (i / u))"
    by (simp add: Let_def)
next
  show "jaccard_overlap (xmin2, xmax2, ymin2, ymax2) (xmin1, xmax1, ymin1, ymax1) =
           jaccard_overlap (xmin1, xmax1, ymin1, ymax1) (xmin2, xmax2, ymin2, ymax2)"
    by (simp add: Let_def min.commute max.commute add.commute)
next
  assume a: "xmax1 < xmin1 \<and> xmin2 < xmax1 \<and> xmin1 < xmax2 \<and> ymin1 < ymax2 \<and> ymin2 < ymax1"
  then have "min xmax1 xmax2 = xmax1" "max xmin1 xmin2 = xmin1"
    by auto
  with a show "jaccard_overlap (xmin1, xmax1, ymin1, ymax1) (xmin2, xmax2, ymin2, ymax2) =
              (let i = (xmax1 - xmin1) * (min ymax1 ymax2 - max ymin1 ymin2);
                   u = (xmax1 - xmin1) * (ymax1 - ymin1) + (xmax2 - xmin2) * (ymax2 - ymin2) - i
               in if u = 0 then Inl ZeroDivisionError else Inr (i / u))"
    by (simp add: Let_def)
qed

theorem jaccard_overlap_malformed_witness:
  "(0::real) < 4 \<and>
   jaccard_overlap (4, 0, 0, 4) (4, 0, 0, 4) = Inr 0 \<and>
   jaccard_overlap (4, 0, 0, 4) (- 1, 5, 1, 2) = Inr (2 / 3) \<and>
   jaccard_overlap (- 1, 5, 1, 2) (4, 0, 0, 4) = Inr (2 / 3)"
  using jaccard_overlap_malformed [of 0 4 4 0 "- 1" 5 1 2]
  by (simp add: Let_def)

text \<open>
  C8 as stated fails: the first box below has xmax below xmin, and the call returns the
  number \<open>-2/5\<close> instead of failing.
\<close>

theorem jaccard_overlap_malformed_counterexample:
  "\<not> well_formed (10, 0, 0, 10) \<and>
   jaccard_overlap (10, 0, 0, 10) (- 5, 20, 0, 10) = Inr (- 2 / 5)"
  by (simp add: Let_def)

section \<open>Properties of the target encoder\<close>

text \<open>
  C7, as the code has it. For an anchor of positive width and height and any deltas \<open>dx\<close>,
  \<open>dy\<close>, \<open>dw\<close>, \<open>dh\<close>, the box with centre \<open>A.center + (dx * A.w, dy * A.h)\<close> and size
  \<open>(A.w * exp dw, A.h * exp dh)\<close> is encoded against the anchor without an error, and the
  result is exactly the four deltas, in real arithmetic.
\<close>

theorem compute_location_roundtrip:
  assumes "0 < size_w (anchor_size a)" and "0 < size_h (anchor_size a)"
  shows "compute_location
           \<lparr>box_center =
              \<lparr>point_x = point_x (anchor_center a) + dx * size_w (anchor_size a),
               point_y = point_y (anchor_center a) + dy * size_h (anchor_size a)\<rparr>,
            box_size =
              \<lparr>size_w = size_w (anchor_size a) * exp dw,
               size_h = size_h (anchor_size a) * exp dh\<rparr>\<rparr> a
         = Inr [dx, dy, dw, dh]"
  using assms by (simp add: compute_location_def Let_def not_le)

theorem compute_location_roundtrip_witness:
  "(0::real) < 1 / 5 \<and> (0::real) < 2 / 5 \<and>
   compute_location
     \<lparr>box_center = \<lparr>point_x = 1 / 2 + 1 * (1 / 5), point_y = 1 / 2 + (- 2) * (2 / 5)\<rparr>,
      box_size = \<lparr>size_w = 1 / 5 * exp 1, size_h = 2 / 5 * exp (- 3)\<rparr>\<rparr>
     \<lparr>anchor_center = \<lparr>point_x = 1 / 2, point_y = 1 / 2\<rparr>,
      anchor_size = \<lparr>size_w = 1 / 5, size_h = 2 / 5\<rparr>,
      anchor_x = 0, anchor_y = 0, anchor_scale = 1 / 5, anchor_map = 0\<rparr>
   = Inr [1, - 2, 1, - 3]"
  using compute_location_roundtrip
    [of "\<lparr>anchor_center = \<lparr>point_x = 1 / 2, point_y = 1 / 2\<rparr>,
          anchor_size = \<lparr>size_w = 1 / 5, size_h = 2 / 5\<rparr>,
          anchor_x = 0, anchor_y = 0, anchor_scale = 1 / 5, anchor_map = 0\<rparr>" 1 "- 2" 1 "- 3"]
  by simp

text \<open>
  C7 as stated, with its bound of \<open>1e-9\<close> in floating point for every delta, fails: for
  \<open>dw = -800\<close> the exponential underflows, the decoded box has the width 0, and the encoder
  ends with the error of \<open>math.log\<close> instead of returning the deltas.
\<close>

theorem compute_location_roundtrip_counterexample:
  "exp_double (- 800) = 0 \<and>
   compute_location
     \<lparr>box_center = \<lparr>point_x = 1 / 2 + 0 * (1 / 5), point_y = 1 / 2 + 0 * (2 / 5)\<rparr>,
      box_size = \<lparr>size_w = 1 / 5 * exp_double (- 800), size_h = 2 / 5 * exp_double 0\<rparr>\<rparr>
     \<lparr>anchor_center = \<lparr>point_x = 1 / 2, point_y = 1 / 2\<rparr>,
      anchor_size = \<lparr>size_w = 1 / 5, size_h = 2 / 5\<rparr>,
      anchor_x = 0, anchor_y = 0, anchor_scale = 1 / 5, anchor_map = 0\<rparr>
   = Inl ValueError"
  by (simp add: exp_double_def compute_location_def Let_def)

section \<open>Properties of the preset registry\<close>

text \<open>
  C9. For every name, \<open>get_preset_by_name\<close> returns the configuration registered under the
  name when there is one, and fails with the error \<open>RuntimeError('No such preset: ' + name)\<close>
  (the unknown-preset error) when there is none; in both cases the registry is left as it
  was. The registry of the module holds the 300x300 and the 500x500 presets.
\<close>

theorem get_preset_by_name_registered:
  "(presets name = Some p \<longrightarrow> get_preset_by_name presets name = (Inr p, presets)) \<and>
   (presets name = None \<longrightarrow>
      get_preset_by_name presets name =
        (Inl (RuntimeError (''No such preset: '' @ name)), presets)) \<and>
   snd (get_preset_by_name presets name) = presets \<and>
   SSD_PRESETS ''vgg300'' = Some vgg300 \<and>
   SSD_PRESETS ''vgg500'' = Some vgg500"
  by (auto simp: get_preset_by_name_def SSD_PRESETS_def dom_def)

theorem get_preset_by_name_registered_witness:
  "get_preset_by_name SSD_PRESETS ''vgg500'' = (Inr vgg500, SSD_PRESETS) \<and>
   get_preset_by_name SSD_PRESETS ''vgg512'' =
     (Inl (RuntimeError ''No such preset: vgg512''), SSD_PRESETS)"
  using get_preset_by_name_registered [of SSD_PRESETS "''vgg500''" vgg500]
    get_preset_by_name_registered [of SSD_PRESETS "''vgg512''"]
  by (simp add: SSD_PRESETS_def)

section \<open>Properties of the anchor generator\<close>

subsection \<open>The scales\<close>

lemma scales_loop_ok:
  "n \<noteq> 1 \<Longrightarrow>
   scales_loop n ks acc =
     Inr (acc @ map (\<lambda>k. SCALE_MIN + SCALE_DIFF / real_of_int (n - 1) * real_of_int (k - 1)) ks)"
  by (induction ks arbitrary: acc) (simp_all add: Let_def)

lemma scales_loop_one:
  "ks \<noteq> [] \<Longrightarrow> scales_loop 1 ks acc = Inl ZeroDivisionError"
  by (cases ks) simp_all

lemma compute_scales_ok:
  "num_maps p \<noteq> 1 \<Longrightarrow>
   compute_scales p =
     Inr (map (\<lambda>k. SCALE_MIN + SCALE_DIFF / real_of_int (num_maps p - 1) * real_of_int (k - 1))
            [1..num_maps p])"
  by (simp add: compute_scales_def scales_loop_ok)

lemma compute_scales_one:
  "num_maps p = 1 \<Longrightarrow> compute_scales p = Inl ZeroDivisionError"
  by (simp add: compute_scales_def scales_loop_one upto.simps)

lemma scales_distinct:
  assumes "2 \<le> n"
  shows "distinct (map (\<lambda>k. SCALE_MIN + SCALE_DIFF / real_of_int (n - 1) * real_of_int (k - 1))
                     [1..n])"
proof -
  have pos: "0 < SCALE_DIFF / real_of_int (n - 1)"
    using assms by (simp add: SCALE_DIFF_def SCALE_MAX_def SCALE_MIN_def)
  have "inj (\<lambda>k. SCALE_MIN + SCALE_DIFF / real_of_int (n - 1) * real_of_int (k - 1))"
    using pos by (auto simp: inj_on_def)
  then show ?thesis
    by (simp add: distinct_map inj_on_def)
qed

text \<open>
  Every scale the first loop computes is positive; so the argument of \<open>math.sqrt\<close> in the
  second loop, a product of two scales, is positive as well.
\<close>

lemma scales_positive:
  assumes "compute_scales p = Inr scales" and "s \<in> set scales"
  shows "0 < s"
proof -
  have ne: "num_maps p \<noteq> 1"
    using assms(1) by (auto simp: compute_scales_one)
  from assms compute_scales_ok [OF ne] obtain k where k: "1 \<le> k" "k \<le> num_maps p"
    and s: "s = SCALE_MIN + SCALE_DIFF / real_of_int (num_maps p - 1) * real_of_int (k - 1)"
    by auto
  have "0 \<le> SCALE_DIFF / real_of_int (num_maps p - 1) * real_of_int (k - 1)"
    using k by (simp add: SCALE_DIFF_def SCALE_MAX_def SCALE_MIN_def)
  then show ?thesis
    unfolding s by (simp add: SCALE_MIN_def)
qed

text \<open>
  C6, as the code has it. For a preset with \<open>K \<ge> 2\<close> feature maps the first loop ends
  without an error with exactly \<open>K\<close> scales, the \<open>k\<close>-th of them (\<open>k\<close> from 1 to \<open>K\<close>) being
  \<open>0.2 + (0.9 - 0.2) / (K - 1) * (k - 1)\<close>; these are the scales the rest of
  \<open>get_anchors_for_preset\<close> works with.
\<close>

theorem compute_scales_interpolation:
  assumes "2 \<le> num_maps p"
  shows "\<exists>scales.
           compute_scales p = Inr scales \<and>
           length scales = nat (num_maps p) \<and>
           (\<forall>k. 1 \<le> k \<and> k \<le> num_maps p \<longrightarrow>
              scales ! nat (k - 1) =
                0.2 + (0.9 - 0.2) / real_of_int (num_maps p - 1) * real_of_int (k - 1)) \<and>
           get_anchors_for_preset p =
             anchors_loop p scales (compute_box_sizes scales) [0..<nat (num_maps p)] []"
proof -
  define f where
    "f = (\<lambda>k. SCALE_MIN + SCALE_DIFF / real_of_int (num_maps p - 1) * real_of_int (k - 1))"
  have cs: "compute_scales p = Inr (map f [1..num_maps p])"
    using assms unfolding f_def by (intro compute_scales_ok) simp
  have nth: "map f [1..num_maps p] ! nat (k - 1) = f k" if "1 \<le> k" "k \<le> num_maps p" for k
    using that by simp
  have "f k = 0.2 + (0.9 - 0.2) / real_of_int (num_maps p - 1) * real_of_int (k - 1)" for k
    by (simp add: f_def SCALE_MIN_def SCALE_DIFF_def SCALE_MAX_def)
  with nth cs show ?thesis
    by (simp add: get_anchors_for_preset_def)
qed

theorem compute_scales_interpolation_witness:
  "\<exists>scales. compute_scales vgg300 = Inr scales \<and> length scales = 6 \<and>
      scales ! 0 = 0.2 \<and> scales ! 5 = 0.9"
proof -
  have K: "2 \<le> num_maps vgg300" "num_maps vgg300 = 6"
    by (simp_all add: vgg300_def)
  from compute_scales_interpolation [OF K(1)]
  obtain scales where s: "compute_scales vgg300 = Inr scales" "length scales = 6"
    and nth: "\<And>k. 1 \<le> k \<and> k \<le> 6 \<Longrightarrow>
      scales ! nat (k - 1) = 0.2 + (0.9 - 0.2) / real_of_int (6 - 1) * real_of_int (k - 1)"
    unfolding K(2) by auto
  from nth [of 1] nth [of 6] have "scales ! 0 = 0.2" "scales ! 5 = 0.9"
    by simp_all
  with s show ?thesis by blast
qed

text \<open>
  C6 as stated fails for \<open>K = 1\<close>: the only turn of the loop divides by \<open>K - 1 = 0\<close>, and
  the call ends with the division error instead of the single scale 0.2.
\<close>

theorem compute_scales_single_map_counterexample:
  "compute_scales
     \<lparr>image_size = \<lparr>size_w = 300, size_h = 300\<rparr>, num_maps = 1,
      map_sizes = [\<lparr>size_w = 1, size_h = 1\<rparr>], num_anchors = 5\<rparr> = Inl ZeroDivisionError \<and>
   get_anchors_for_preset
     \<lparr>image_size = \<lparr>size_w = 300, size_h = 300\<rparr>, num_maps = 1,
      map_sizes = [\<lparr>size_w = 1, size_h = 1\<rparr>], num_anchors = 5\<rparr> = Inl ZeroDivisionError"
  by (simp add: get_anchors_for_preset_def compute_scales_one)

subsection \<open>The box sizes and the anchors of one feature map\<close>

lemma box_sizes_loop_notin:
  "s \<notin> (\<lambda>i. scales ! i) ` set is \<Longrightarrow> box_sizes_loop scales is bs s = bs s"
  by (induction "is" arbitrary: bs) auto

lemma box_sizes_loop_lookup:
  "distinct (map (\<lambda>i. scales ! i) is) \<Longrightarrow> i \<in> set is \<Longrightarrow>
     box_sizes_loop scales is bs (scales ! i) = Some (box_sizes_at scales i)"
proof (induction "is" arbitrary: bs)
  case Nil
  then show ?case by simp
next
  case (Cons a "is")
  show ?case
  proof (cases "i = a")
    case True
    with Cons.prems(1) have "scales ! i \<notin> (\<lambda>i. scales ! i) ` set is" by auto
    then show ?thesis using True by (simp add: box_sizes_loop_notin)
  next
    case False
    with Cons show ?thesis by auto
  qed
qed

lemma compute_box_sizes_lookup:
  "distinct scales \<Longrightarrow> i < length scales \<Longrightarrow>
     compute_box_sizes scales (scales ! i) = Some (box_sizes_at scales i)"
  unfolding compute_box_sizes_def
  by (rule box_sizes_loop_lookup) (simp_all add: map_nth)

lemma length_box_sizes_at:
  "length (box_sizes_at scales i) = (if Suc i < length scales then 6 else 5)"
  by (auto simp: box_sizes_at_def aspect_ratios_def Let_def)

lemma length_level_anchors:
  "length (level_anchors s fk k sizes) = nat fk * nat fk * length sizes"
  by (simp add: level_anchors_def length_concat comp_def sum_list_triv Let_def)


lemma anchors_loop_ok:
  assumes "\<forall>k\<in>set ks. k < length (map_sizes p) \<and> bs (scales ! k) = Some (B k)"
  shows "anchors_loop p scales bs ks acc =
           Inr (acc @ concat (map (\<lambda>k. level_anchors (scales ! k) (size_w (map_sizes p ! k)) k (B k)) ks))"
  using assms
proof (induction ks arbitrary: acc)
  case Nil
  then show ?case by simp
next
  case (Cons k ks)
  have e: "level_anchors s fk k' sizes = []" if "fk \<le> 0" for s fk k' sizes
    using that by (simp add: level_anchors_def)
  from Cons show ?case
    by (simp add: Let_def e)
qed

lemma anchors_loop_index_error:
  assumes "k \<in> set ks" "length (map_sizes p) \<le> k"
    and "\<forall>k\<in>set ks. bs (scales ! k) \<noteq> None"
  shows "anchors_loop p scales bs ks acc = Inl IndexError"
  using assms
  by (induction ks arbitrary: acc) (auto simp: Let_def split: option.splits)

lemma in_level_anchors:
  "a \<in> set (level_anchors s fk k sizes) \<longleftrightarrow>
     (\<exists>i j sz. 0 \<le> i \<and> i < fk \<and> 0 \<le> j \<and> j < fk \<and> sz \<in> set sizes \<and>
        a = \<lparr>anchor_center = \<lparr>point_x = (real_of_int i + 0.5) / real_of_int fk,
                                 point_y = (real_of_int j + 0.5) / real_of_int fk\<rparr>,
             anchor_size = \<lparr>size_w = fst sz, size_h = snd sz\<rparr>,
             anchor_x = j, anchor_y = i, anchor_scale = s, anchor_map = k\<rparr>)"
  (is "?L \<longleftrightarrow> ?R")
proof
  assume ?L
  then show ?R
    by (auto simp: level_anchors_def Let_def)
next
  assume ?R
  then obtain i j sz where b: "0 \<le> i" "i < fk" "0 \<le> j" "j < fk" "sz \<in> set sizes"
    and a: "a = \<lparr>anchor_center = \<lparr>point_x = (real_of_int i + 0.5) / real_of_int fk,
                                 point_y = (real_of_int j + 0.5) / real_of_int fk\<rparr>,
             anchor_size = \<lparr>size_w = fst sz, size_h = snd sz\<rparr>,
             anchor_x = j, anchor_y = i, anchor_scale = s, anchor_map = k\<rparr>"
    by blast
  have i: "i \<in> {0..fk - 1}" and j: "j \<in> {0..fk - 1}"
    using b by simp_all
  have "set (level_anchors s fk k sizes) =
      (\<Union>i\<in>{0..fk - 1}. \<Union>j\<in>{0..fk - 1}.
         (\<lambda>sz. \<lparr>anchor_center = \<lparr>point_x = (real_of_int i + 0.5) / real_of_int fk,
                                 point_y = (real_of_int j + 0.5) / real_of_int fk\<rparr>,
             anchor_size = \<lparr>size_w = fst sz, size_h = snd sz\<rparr>,
             anchor_x = j, anchor_y = i, anchor_scale = s, anchor_map = k\<rparr>) ` set sizes)"
    by (simp add: level_anchors_def Let_def)
  then show ?L
    using i j b(5) a by blast
qed

lemma set_level_anchors_cells:
  assumes "sizes \<noteq> []"
  shows "(\<lambda>a. (anchor_x a, anchor_y a)) ` set (level_anchors s fk k sizes) = {0..fk - 1} \<times> {0..fk - 1}"
proof -
  obtain sz where sz: "sz \<in> set sizes"
    using assms by (cases sizes) auto
  show ?thesis
  proof (intro set_eqI iffI)
    fix c assume "c \<in> (\<lambda>a. (anchor_x a, anchor_y a)) ` set (level_anchors s fk k sizes)"
    then show "c \<in> {0..fk - 1} \<times> {0..fk - 1}"
      by (auto simp: in_level_anchors)
  next
    fix c :: "int \<times> int" assume c: "c \<in> {0..fk - 1} \<times> {0..fk - 1}"
    obtain j i where ji: "c = (j, i)" by (cases c)
    let ?a = "\<lparr>anchor_center = \<lparr>point_x = (real_of_int i + 0.5) / real_of_int fk,
                                 point_y = (real_of_int j + 0.5) / real_of_int fk\<rparr>,
             anchor_size = \<lparr>size_w = fst sz, size_h = snd sz\<rparr>,
             anchor_x = j, anchor_y = i, anchor_scale = s, anchor_map = k\<rparr>"
    have "?a \<in> set (level_anchors s fk k sizes)"
      unfolding in_level_anchors using c sz ji by fastforce
    then show "c \<in> (\<lambda>a. (anchor_x a, anchor_y a)) ` set (level_anchors s fk k sizes)"
      unfolding ji by (rule rev_image_eqI) simp
  qed
qed

lemma level_anchors_map:
  "a \<in> set (level_anchors s fk k sizes) \<Longrightarrow> anchor_map a = k"
  by (auto simp: level_anchors_def Let_def)

lemma filter_level_anchors:
  "filter (\<lambda>a. anchor_map a = k') (level_anchors s fk k sizes) =
     (if k' = k then level_anchors s fk k sizes else [])"
  by (auto simp: filter_empty_conv filter_id_conv dest: level_anchors_map)

lemma upt6: "[0..<6] = [0, 1, 2, 3, 4, 5]"
  by code_simp

subsection \<open>The whole list\<close>

text \<open>
  For a preset with at least two feature maps and a grid size for each of them, the call
  ends without an error and the list is the concatenation, over the feature maps in
  order, of the anchors of each map.
\<close>

lemma get_anchors_structure:
  assumes "2 \<le> num_maps p" "nat (num_maps p) \<le> length (map_sizes p)"
  shows "\<exists>scales. compute_scales p = Inr scales \<and> length scales = nat (num_maps p) \<and>
     get_anchors_for_preset p =
       Inr (concat (map (\<lambda>k. level_anchors (scales ! k) (size_w (map_sizes p ! k)) k (box_sizes_at scales k)) [0..<length scales]))"
proof -
  define scales where "scales = map (\<lambda>k. SCALE_MIN + SCALE_DIFF / real_of_int (num_maps p - 1) * real_of_int (k - 1)) [1..num_maps p]"
  have cs: "compute_scales p = Inr scales"
    using assms(1) unfolding scales_def by (intro compute_scales_ok) simp
  have len: "length scales = nat (num_maps p)"
    by (simp add: scales_def)
  have d: "distinct scales"
    unfolding scales_def using assms(1) by (rule scales_distinct)
  have "anchors_loop p scales (compute_box_sizes scales) [0..<length scales] [] =
      Inr ([] @ concat (map (\<lambda>k. level_anchors (scales ! k) (size_w (map_sizes p ! k)) k (box_sizes_at scales k)) [0..<length scales]))"
    by (rule anchors_loop_ok) (use assms(2) len d in \<open>auto simp: compute_box_sizes_lookup\<close>)
  then show ?thesis
    using cs len by (simp add: get_anchors_for_preset_def)
qed




text \<open>
  The element at a position of the anchors of one feature map: the position, divided by
  the number of anchors of a grid line, is the value of the outer loop variable; the rest,
  divided by the number of box sizes, is the value of the inner one.
\<close>

lemma nth_concat_uniform:
  assumes "\<forall>x\<in>set xs. length (f x) = m" and "n < length xs * m"
  shows "concat (map f xs) ! n = f (xs ! (n div m)) ! (n mod m)"
  using assms
proof (induction xs arbitrary: n)
  case Nil
  then show ?case by simp
next
  case (Cons x xs)
  have lx: "length (f x) = m" using Cons.prems(1) by simp
  have mpos: "0 < m" using Cons.prems(2) by (cases m) auto
  show ?case
  proof (cases "n < m")
    case True
    then show ?thesis by (simp add: nth_append lx)
  next
    case False
    then have ge: "m \<le> n" by simp
    have n': "n - m < length xs * m" using Cons.prems(2) ge by simp
    have d: "n div m = Suc ((n - m) div m)"
      using ge mpos by (simp add: le_div_geq)
    have r: "n mod m = (n - m) mod m"
      using ge by (simp add: le_mod_geq)
    have "concat (map f (x # xs)) ! n = concat (map f xs) ! (n - m)"
      using False by (simp add: nth_append lx)
    also have "\<dots> = f (xs ! ((n - m) div m)) ! ((n - m) mod m)"
      using Cons.prems(1) n' by (intro Cons.IH) simp_all
    finally show ?thesis by (simp add: d r)
  qed
qed

lemma level_anchors_nth:
  assumes "n < nat fk * nat fk * length sizes"
  shows "level_anchors s fk k sizes ! n =
     \<lparr>anchor_center =
        \<lparr>point_x = (real (n div (nat fk * length sizes)) + 0.5) / real_of_int fk,
         point_y = (real (n mod (nat fk * length sizes) div length sizes) + 0.5) / real_of_int fk\<rparr>,
      anchor_size = \<lparr>size_w = fst (sizes ! (n mod length sizes)),
                     size_h = snd (sizes ! (n mod length sizes))\<rparr>,
      anchor_x = int (n mod (nat fk * length sizes) div length sizes),
      anchor_y = int (n div (nat fk * length sizes)),
      anchor_scale = s, anchor_map = k\<rparr>"
proof -
  define m where "m = length sizes"
  define G where "G = (\<lambda>i j. map (\<lambda>size.
                 \<lparr>anchor_center = \<lparr>point_x = (real_of_int i + 0.5) / real_of_int fk,
                                   point_y = (real_of_int j + 0.5) / real_of_int fk\<rparr>,
                  anchor_size = \<lparr>size_w = fst size, size_h = snd size\<rparr>,
                  anchor_x = j, anchor_y = i, anchor_scale = s, anchor_map = k\<rparr>) sizes)"
  define F where "F = (\<lambda>i. concat (map (G i) [0..fk - 1]))"
  have L: "level_anchors s fk k sizes = concat (map F [0..fk - 1])"
    by (simp add: level_anchors_def Let_def F_def G_def)
  have lG: "length (G i j) = m" for i j by (simp add: G_def m_def)
  have lF: "length (F i) = nat fk * m" for i
    by (simp add: F_def length_concat comp_def lG sum_list_triv)
  have mpos: "0 < m"
    using assms by (cases sizes) (simp_all add: m_def)
  have fpos: "0 < nat fk"
    using assms by (cases "nat fk") simp_all
  define q where "q = n div (nat fk * m)"
  define r where "r = n mod (nat fk * m)"
  have q: "q < nat fk"
    using assms unfolding q_def m_def by (simp add: less_mult_imp_div_less mult.assoc)
  have r: "r < nat fk * m"
    unfolding r_def using mpos fpos by simp
  have rq: "r div m < nat fk"
    using r by (simp add: less_mult_imp_div_less)
  have u: "[0..fk - 1] ! j = int j" if "j < nat fk" for j
    using that by (simp add: nth_upto)
  have "level_anchors s fk k sizes ! n = F ([0..fk - 1] ! q) ! r"
    unfolding L q_def r_def
    by (rule nth_concat_uniform) (use assms in \<open>simp_all add: lF m_def mult.assoc\<close>)
  also have "\<dots> = F (int q) ! r" by (simp add: u q)
  also have "\<dots> = G (int q) ([0..fk - 1] ! (r div m)) ! (r mod m)"
    unfolding F_def
    by (rule nth_concat_uniform) (use r in \<open>simp_all add: lG\<close>)
  also have "\<dots> = G (int q) (int (r div m)) ! (r mod m)" by (simp add: u rq)
  finally have "level_anchors s fk k sizes ! n = G (int q) (int (r div m)) ! (r mod m)" .
  moreover have "r mod m = n mod m"
    unfolding r_def by (simp add: mod_mult_self1_is_0 mod_mod_cancel)
  ultimately show ?thesis
    using mpos unfolding G_def q_def r_def m_def by simp
qed

text \<open>
  Every anchor of the list takes the first coordinate of its centre from its field \<open>y\<close>
  (the outer loop variable) and the second from its field \<open>x\<close> (the inner one).
\<close>

lemma anchor_center_from_grid:
  assumes "2 \<le> num_maps p" and "nat (num_maps p) \<le> length (map_sizes p)"
    and "get_anchors_for_preset p = Inr as" and "a \<in> set as"
  shows "point_x (anchor_center a) =
           (real_of_int (anchor_y a) + 0.5) / real_of_int (size_w (map_sizes p ! anchor_map a)) \<and>
         point_y (anchor_center a) =
           (real_of_int (anchor_x a) + 0.5) / real_of_int (size_w (map_sizes p ! anchor_map a))"
proof -
  from get_anchors_structure [OF assms(1,2)] assms(3,4)
  obtain scales k where
    "a \<in> set (level_anchors (scales ! k) (size_w (map_sizes p ! k)) k (box_sizes_at scales k))"
    by auto
  then show ?thesis
    unfolding in_level_anchors by auto
qed

text \<open>
  C1 says that the centre's x of every anchor is \<open>(j + 0.5) / f\<close> for \<open>j\<close> the anchor's
  field \<open>x\<close>, and the centre's y is \<open>(i + 0.5) / f\<close> for \<open>i\<close> the anchor's field \<open>y\<close>. The
  code computes the centre's x from the outer loop variable and stores that variable in
  the field \<open>y\<close>. The anchor at position 6 of the list of the 300x300 preset (grid size 38)
  has the fields \<open>x = 1\<close> and \<open>y = 0\<close> and the centre \<open>(0.5 / 38, 1.5 / 38)\<close>, not
  \<open>(1.5 / 38, 0.5 / 38)\<close>.
\<close>

theorem vgg300_anchor_6_transposed:
  "\<exists>as. get_anchors_for_preset vgg300 = Inr as \<and>
      anchor_map (as ! 6) = 0 \<and>
      anchor_x (as ! 6) = 1 \<and>
      anchor_y (as ! 6) = 0 \<and>
      point_x (anchor_center (as ! 6)) = (0 + 0.5) / 38 \<and>
      point_y (anchor_center (as ! 6)) = (1 + 0.5) / 38 \<and>
      point_x (anchor_center (as ! 6)) \<noteq> (real_of_int (anchor_x (as ! 6)) + 0.5) / 38 \<and>
      point_y (anchor_center (as ! 6)) \<noteq> (real_of_int (anchor_y (as ! 6)) + 0.5) / 38"
proof -
  have "2 \<le> num_maps vgg300" "nat (num_maps vgg300) \<le> length (map_sizes vgg300)"
    by (simp_all add: vgg300_def)
  from get_anchors_structure [OF this]
  obtain scales where len: "length scales = 6"
    and as: "get_anchors_for_preset vgg300 =
       Inr (concat (map (\<lambda>k. level_anchors (scales ! k) (size_w (map_sizes vgg300 ! k)) k
                               (box_sizes_at scales k)) [0..<length scales]))"
    by (auto simp: vgg300_def)
  define L where "L = (\<lambda>k. level_anchors (scales ! k) (size_w (map_sizes vgg300 ! k)) k
                               (box_sizes_at scales k))"
  have l0: "length (box_sizes_at scales 0) = 6"
    by (simp add: length_box_sizes_at len)
  have L0: "L 0 = level_anchors (scales ! 0) 38 0 (box_sizes_at scales 0)"
    by (simp add: L_def vgg300_def)
  have lL0: "length (L 0) = 8664"
    by (simp add: L0 length_level_anchors l0)
  have "concat (map L [0..<length scales]) ! 6 = L 0 ! 6"
    unfolding len upt6 by (simp add: nth_append lL0)
  also have "\<dots> = \<lparr>anchor_center = \<lparr>point_x = (0 + 0.5) / 38, point_y = (1 + 0.5) / 38\<rparr>,
      anchor_size = \<lparr>size_w = fst (box_sizes_at scales 0 ! 0),
                     size_h = snd (box_sizes_at scales 0 ! 0)\<rparr>,
      anchor_x = 1, anchor_y = 0, anchor_scale = scales ! 0, anchor_map = 0\<rparr>"
    unfolding L0 by (subst level_anchors_nth) (simp_all add: l0)
  finally show ?thesis
    unfolding as L_def [symmetric] by simp
qed

text \<open>The lengths for the two presets, as a whole and per feature map.\<close>

lemma builtin_anchor_counts_aux:
  "(\<exists>as. get_anchors_for_preset vgg300 = Inr as \<and>
      int (length as) = num_anchors vgg300 \<and> length as = 11639 \<and>
      map (\<lambda>k. length (filter (\<lambda>a. anchor_map a = k) as)) [0..<6] =
        [38 * 38 * 6, 19 * 19 * 6, 10 * 10 * 6, 5 * 5 * 6, 3 * 3 * 6, 1 * 1 * 5]) \<and>
   (\<exists>as. get_anchors_for_preset vgg500 = Inr as \<and>
      int (length as) = num_anchors vgg500 \<and> length as = 32174 \<and>
      map (\<lambda>k. length (filter (\<lambda>a. anchor_map a = k) as)) [0..<6] =
        [63 * 63 * 6, 32 * 32 * 6, 16 * 16 * 6, 8 * 8 * 6, 6 * 6 * 6, 4 * 4 * 5])"
proof
  have "2 \<le> num_maps vgg300" "nat (num_maps vgg300) \<le> length (map_sizes vgg300)"
    by (simp_all add: vgg300_def)
  from get_anchors_structure [OF this]
  obtain scales where len: "length scales = 6"
    and as: "get_anchors_for_preset vgg300 =
       Inr (concat (map (\<lambda>k. level_anchors (scales ! k) (size_w (map_sizes vgg300 ! k)) k
                               (box_sizes_at scales k)) [0..<length scales]))"
    by (auto simp: vgg300_def)
  show "\<exists>as. get_anchors_for_preset vgg300 = Inr as \<and>
      int (length as) = num_anchors vgg300 \<and> length as = 11639 \<and>
      map (\<lambda>k. length (filter (\<lambda>a. anchor_map a = k) as)) [0..<6] =
        [38 * 38 * 6, 19 * 19 * 6, 10 * 10 * 6, 5 * 5 * 6, 3 * 3 * 6, 1 * 1 * 5]"
    unfolding as len upt6
    by (simp add: length_level_anchors length_box_sizes_at len filter_level_anchors vgg300_def)
next
  have "2 \<le> num_maps vgg500" "nat (num_maps vgg500) \<le> length (map_sizes vgg500)"
    by (simp_all add: vgg500_def)
  from get_anchors_structure [OF this]
  obtain scales where len: "length scales = 6"
    and as: "get_anchors_for_preset vgg500 =
       Inr (concat (map (\<lambda>k. level_anchors (scales ! k) (size_w (map_sizes vgg500 ! k)) k
                               (box_sizes_at scales k)) [0..<length scales]))"
    by (auto simp: vgg500_def)
  show "\<exists>as. get_anchors_for_preset vgg500 = Inr as \<and>
      int (length as) = num_anchors vgg500 \<and> length as = 32174 \<and>
      map (\<lambda>k. length (filter (\<lambda>a. anchor_map a = k) as)) [0..<6] =
        [63 * 63 * 6, 32 * 32 * 6, 16 * 16 * 6, 8 * 8 * 6, 6 * 6 * 6, 4 * 4 * 5]"
    unfolding as len upt6
    by (simp add: length_level_anchors length_box_sizes_at len filter_level_anchors vgg500_def)
qed

text \<open>
  C2. For every built-in preset, that is for every entry of \<open>SSD_PRESETS\<close>, the call
  returns a list whose length is the preset's \<open>num_anchors\<close>: 11639 for the 300x300 preset
  and 32174 for the 500x500 preset. The feature maps contribute, in order, six anchors per
  grid cell for the first five and five anchors per grid cell for the last.
\<close>

theorem builtin_anchor_counts:
  "(\<exists>as. get_anchors_for_preset vgg300 = Inr as \<and>
      int (length as) = num_anchors vgg300 \<and> length as = 11639 \<and>
      map (\<lambda>k. length (filter (\<lambda>a. anchor_map a = k) as)) [0..<6] =
        [38 * 38 * 6, 19 * 19 * 6, 10 * 10 * 6, 5 * 5 * 6, 3 * 3 * 6, 1 * 1 * 5]) \<and>
   (\<exists>as. get_anchors_for_preset vgg500 = Inr as \<and>
      int (length as) = num_anchors vgg500 \<and> length as = 32174 \<and>
      map (\<lambda>k. length (filter (\<lambda>a. anchor_map a = k) as)) [0..<6] =
        [63 * 63 * 6, 32 * 32 * 6, 16 * 16 * 6, 8 * 8 * 6, 6 * 6 * 6, 4 * 4 * 5]) \<and>
   (\<forall>name p. SSD_PRESETS name = Some p \<longrightarrow>
      (\<exists>as. get_anchors_for_preset p = Inr as \<and> int (length as) = num_anchors p))"
proof -
  have "p = vgg300 \<or> p = vgg500" if "SSD_PRESETS name = Some p" for name p
    using that by (auto simp: SSD_PRESETS_def split: if_splits)
  with builtin_anchor_counts_aux show ?thesis
    by blast
qed

theorem builtin_anchor_counts_witness:
  "SSD_PRESETS ''vgg500'' = Some vgg500 \<and>
   (\<exists>as. get_anchors_for_preset vgg500 = Inr as \<and> int (length as) = num_anchors vgg500)"
proof -
  have r: "SSD_PRESETS ''vgg500'' = Some vgg500"
    by (simp add: SSD_PRESETS_def)
  from builtin_anchor_counts
  have "\<forall>name p. SSD_PRESETS name = Some p \<longrightarrow>
      (\<exists>as. get_anchors_for_preset p = Inr as \<and> int (length as) = num_anchors p)"
    by blast
  with r show ?thesis by blast
qed

subsection \<open>Only the width of a map size is read\<close>

lemma anchors_loop_cong:
  assumes "length (map_sizes q) = length (map_sizes p)"
    and "\<forall>k<length (map_sizes p). size_w (map_sizes q ! k) = size_w (map_sizes p ! k)"
  shows "anchors_loop q scales bs ks acc = anchors_loop p scales bs ks acc"
  using assms
  by (induction ks arbitrary: acc) (simp_all add: Let_def split: option.splits)

lemma compute_scales_cong:
  "num_maps q = num_maps p \<Longrightarrow> compute_scales q = compute_scales p"
  by (simp add: compute_scales_def)

lemma get_anchors_cong:
  assumes "num_maps q = num_maps p" "map size_w (map_sizes q) = map size_w (map_sizes p)"
  shows "get_anchors_for_preset q = get_anchors_for_preset p"
proof -
  from assms(2) have l: "length (map_sizes q) = length (map_sizes p)"
    by (rule map_eq_imp_length_eq)
  have w: "\<forall>k<length (map_sizes p). size_w (map_sizes q ! k) = size_w (map_sizes p ! k)"
  proof (intro allI impI)
    fix k assume "k < length (map_sizes p)"
    then have "map size_w (map_sizes q) ! k = size_w (map_sizes q ! k)"
      "map size_w (map_sizes p) ! k = size_w (map_sizes p ! k)"
      using l by simp_all
    with assms(2) show "size_w (map_sizes q ! k) = size_w (map_sizes p ! k)" by simp
  qed
  show ?thesis
    by (simp add: get_anchors_for_preset_def compute_scales_cong [OF assms(1)]
        anchors_loop_cong [OF l w] split: sum.splits)
qed

lemma level_cells:
  assumes "2 \<le> num_maps p" "nat (num_maps p) \<le> length (map_sizes p)" "k < nat (num_maps p)"
  shows "\<exists>as. get_anchors_for_preset p = Inr as \<and>
     (\<lambda>a. (anchor_x a, anchor_y a)) ` {a \<in> set as. anchor_map a = k} =
       {0..size_w (map_sizes p ! k) - 1} \<times> {0..size_w (map_sizes p ! k) - 1}"
proof -
  from get_anchors_structure [OF assms(1,2)]
  obtain scales where len: "length scales = nat (num_maps p)"
    and as: "get_anchors_for_preset p =
       Inr (concat (map (\<lambda>k. level_anchors (scales ! k) (size_w (map_sizes p ! k)) k
                               (box_sizes_at scales k)) [0..<length scales]))"
    by auto
  let ?L = "\<lambda>k. level_anchors (scales ! k) (size_w (map_sizes p ! k)) k (box_sizes_at scales k)"
  have "{a \<in> set (concat (map ?L [0..<length scales])). anchor_map a = k} = set (?L k)"
    using assms(3) len by (auto dest: level_anchors_map)
  moreover have "box_sizes_at scales k \<noteq> []"
    using length_box_sizes_at [of scales k] by (auto split: if_splits)
  ultimately show ?thesis
    unfolding as by (simp add: set_level_anchors_cells)
qed


text \<open>
  C10. The generator reads only the width of each entry of \<open>map_sizes\<close>: replacing every
  height by the width changes nothing in the result, and so does any other change of the
  heights alone. Where the call ends without an error (at least two feature maps, a map
  size for each), the anchors of feature map \<open>k\<close> cover exactly the cells of a grid of
  \<open>w\<close> by \<open>w\<close>, for \<open>w\<close> the width of \<open>map_sizes[k]\<close>.
\<close>

theorem get_anchors_reads_width_only:
  "get_anchors_for_preset (p\<lparr>map_sizes := map (\<lambda>s. s\<lparr>size_h := size_w s\<rparr>) (map_sizes p)\<rparr>) =
     get_anchors_for_preset p \<and>
   (num_maps q = num_maps p \<and> map size_w (map_sizes q) = map size_w (map_sizes p) \<longrightarrow>
      get_anchors_for_preset q = get_anchors_for_preset p) \<and>
   (2 \<le> num_maps p \<and> nat (num_maps p) \<le> length (map_sizes p) \<and> k < nat (num_maps p) \<longrightarrow>
      (\<exists>as. get_anchors_for_preset p = Inr as \<and>
         (\<lambda>a. (anchor_x a, anchor_y a)) ` {a \<in> set as. anchor_map a = k} =
           {0..size_w (map_sizes p ! k) - 1} \<times> {0..size_w (map_sizes p ! k) - 1}))"
proof (intro conjI impI)
  show "get_anchors_for_preset
          (p\<lparr>map_sizes := map (\<lambda>s. s\<lparr>size_h := size_w s\<rparr>) (map_sizes p)\<rparr>) =
        get_anchors_for_preset p"
    by (rule get_anchors_cong) (simp_all add: comp_def)
next
  assume "num_maps q = num_maps p \<and> map size_w (map_sizes q) = map size_w (map_sizes p)"
  then show "get_anchors_for_preset q = get_anchors_for_preset p"
    by (intro get_anchors_cong) simp_all
next
  assume "2 \<le> num_maps p \<and> nat (num_maps p) \<le> length (map_sizes p) \<and> k < nat (num_maps p)"
  then show "\<exists>as. get_anchors_for_preset p = Inr as \<and>
         (\<lambda>a. (anchor_x a, anchor_y a)) ` {a \<in> set as. anchor_map a = k} =
           {0..size_w (map_sizes p ! k) - 1} \<times> {0..size_w (map_sizes p ! k) - 1}"
    by (intro level_cells) simp_all
qed

theorem get_anchors_reads_width_only_witness:
  "get_anchors_for_preset
     (vgg300\<lparr>map_sizes := map (\<lambda>s. s\<lparr>size_h := 7\<rparr>) (map_sizes vgg300)\<rparr>) =
     get_anchors_for_preset vgg300 \<and>
   (\<exists>as. get_anchors_for_preset vgg300 = Inr as \<and>
      (\<lambda>a. (anchor_x a, anchor_y a)) ` {a \<in> set as. anchor_map a = 4} =
        {0..2} \<times> {0..2})"
  using get_anchors_reads_width_only
    [of vgg300 "vgg300\<lparr>map_sizes := map (\<lambda>s. s\<lparr>size_h := 7\<rparr>) (map_sizes vgg300)\<rparr>" 4]
  by (simp add: vgg300_def)

section \<open>Properties of the matcher\<close>

text \<open>The loop over a list with one more anchor at its end: the loop over the list, then one turn.\<close>

lemma overlap_loop_append:
  "overlap_loop p2a bp thr i (as @ [a]) b g =
     (case overlap_loop p2a bp thr i as b g of
        Inl e \<Rightarrow> Inl e
      | Inr R \<Rightarrow> overlap_loop p2a bp thr (i + length as) [a] (overlap_best R) (overlap_good R))"
  by (induction "as" arbitrary: i b g) (simp_all add: Let_def split: sum.splits)

lemma best_ok_skip: "best_ok ov n B \<Longrightarrow> ov n = 0 \<Longrightarrow> best_ok ov (Suc n) B"
  unfolding best_ok_def by (auto simp: less_Suc_eq)

lemma best_ok_first: "best_ok ov n None \<Longrightarrow> ov n \<noteq> 0 \<Longrightarrow>
    best_ok ov (Suc n) (Some \<lparr>score_idx = n, score_score = ov n\<rparr>)"
  unfolding best_ok_def by (auto simp: less_Suc_eq)

lemma best_ok_better: "best_ok ov n (Some s) \<Longrightarrow> ov n \<noteq> 0 \<Longrightarrow> score_score s < ov n \<Longrightarrow>
    best_ok ov (Suc n) (Some \<lparr>score_idx = n, score_score = ov n\<rparr>)"
  unfolding best_ok_def by (fastforce simp: less_Suc_eq)

lemma best_ok_keep: "best_ok ov n (Some s) \<Longrightarrow> ov n \<noteq> 0 \<Longrightarrow> \<not> score_score s < ov n \<Longrightarrow>
    best_ok ov (Suc n) (Some s)"
  unfolding best_ok_def by (fastforce simp: less_Suc_eq)

lemma overlap_loop_invariant:
  assumes "\<forall>j<length as. jaccard_overlap bp (p2a (anchor_center (as ! j)) (anchor_size (as ! j)) imgsize) = Inr (ov j)"
  shows "\<exists>B. overlap_loop p2a bp thr 0 as None [] =
            Inr \<lparr>overlap_best = B,
                 overlap_good = map (\<lambda>j. \<lparr>score_idx = j, score_score = ov j\<rparr>)
                                  (filter (\<lambda>j. ov j \<noteq> 0 \<and> thr < ov j) [0..<length as])\<rparr> \<and>
          best_ok ov (length as) B"
  using assms
proof (induction "as" rule: rev_induct)
  case Nil
  show ?case by (simp add: best_ok_def)
next
  case (snoc a as)
  let ?n = "length as"
  let ?G = "\<lambda>n. map (\<lambda>j. \<lparr>score_idx = j, score_score = ov j\<rparr>)
                                  (filter (\<lambda>j. ov j \<noteq> 0 \<and> thr < ov j) [0..<n])"
  have "\<forall>j<length as. jaccard_overlap bp (p2a (anchor_center (as ! j)) (anchor_size (as ! j)) imgsize) = Inr (ov j)"
  proof (intro allI impI)
    fix j assume "j < length as"
    with snoc.prems [rule_format, of j] show "jaccard_overlap bp (p2a (anchor_center (as ! j)) (anchor_size (as ! j)) imgsize) = Inr (ov j)"
      by (simp add: nth_append)
  qed
  from snoc.IH [OF this] obtain B where
    run: "overlap_loop p2a bp thr 0 as None [] = Inr \<lparr>overlap_best = B, overlap_good = ?G ?n\<rparr>"
    and ok: "best_ok ov ?n B" by blast
  have a: "jaccard_overlap bp (p2a (anchor_center a) (anchor_size a) imgsize) = Inr (ov ?n)"
    using snoc.prems [rule_format, of ?n] by simp
  show ?case
  proof (cases "ov ?n = 0")
    case True
    then have "overlap_loop p2a bp thr 0 (as @ [a]) None [] =
        Inr \<lparr>overlap_best = B, overlap_good = ?G (Suc ?n)\<rparr>"
      by (simp add: overlap_loop_append run a)
    with best_ok_skip [OF ok True] show ?thesis by simp
  next
    case False
    define B' where "B' = (if B = None \<or> score_score (the B) < ov ?n
                            then Some \<lparr>score_idx = ?n, score_score = ov ?n\<rparr> else B)"
    have "overlap_loop p2a bp thr 0 (as @ [a]) None [] =
        Inr \<lparr>overlap_best = B', overlap_good = ?G (Suc ?n)\<rparr>"
      using False by (simp add: overlap_loop_append run a Let_def B'_def)
    moreover have "best_ok ov (Suc ?n) B'"
    proof (cases B)
      case None
      with ok False show ?thesis by (simp add: B'_def best_ok_first)
    next
      case (Some s)
      with ok False show ?thesis
        by (cases "score_score s < ov ?n") (simp_all add: B'_def best_ok_better best_ok_keep)
    qed
    ultimately show ?thesis by simp
  qed
qed


lemma compute_overlap_empty:
  "compute_overlap p2a box [] threshold = Inr \<lparr>overlap_best = None, overlap_good = []\<rparr>"
  by (simp add: compute_overlap_def)

text \<open>
  C3, as the code has it. Let \<open>ov j\<close> be the overlap of the box with the anchor at position
  \<open>j\<close>, each of them computed without an error. Then \<open>compute_overlap\<close> returns, and its
  \<open>best\<close> is absent exactly when every overlap is zero (so it is absent for the empty
  list). When it is present it is the score of a position \<open>i\<close> with the overlap \<open>ov i\<close>,
  which is not zero and is the greatest of the overlaps that are not zero, and no earlier
  position has this overlap: a later anchor with an equal overlap does not replace it.
  Where some overlap is positive, the best one is positive and is the greatest of all
  overlaps.
\<close>

theorem compute_overlap_best:
  assumes "\<forall>j<length anchors.
             jaccard_overlap (p2a (box_center box) (box_size box) imgsize)
               (p2a (anchor_center (anchors ! j)) (anchor_size (anchors ! j)) imgsize) = Inr (ov j)"
  shows "\<exists>B G. compute_overlap p2a box anchors threshold =
                  Inr \<lparr>overlap_best = B, overlap_good = G\<rparr> \<and>
           (B = None \<longleftrightarrow> (\<forall>j<length anchors. ov j = 0)) \<and>
           (\<forall>s. B = Some s \<longrightarrow>
              score_idx s < length anchors \<and>
              score_score s = ov (score_idx s) \<and>
              score_score s \<noteq> 0 \<and>
              (\<forall>j<length anchors. ov j \<noteq> 0 \<longrightarrow> ov j \<le> score_score s) \<and>
              (\<forall>j<score_idx s. ov j \<noteq> score_score s) \<and>
              ((\<exists>j<length anchors. 0 < ov j) \<longrightarrow>
                 0 < score_score s \<and> (\<forall>j<length anchors. ov j \<le> score_score s)))"
proof -
  from overlap_loop_invariant
    [where as = anchors and p2a = p2a and ov = ov and thr = threshold
       and bp = "p2a (box_center box) (box_size box) imgsize", OF assms]
  obtain B where run: "compute_overlap p2a box anchors threshold =
      Inr \<lparr>overlap_best = B,
           overlap_good = map (\<lambda>j. \<lparr>score_idx = j, score_score = ov j\<rparr>)
              (filter (\<lambda>j. ov j \<noteq> 0 \<and> threshold < ov j) [0..<length anchors])\<rparr>"
    and ok: "best_ok ov (length anchors) B"
    unfolding compute_overlap_def Let_def by blast
  have none: "B = None \<longleftrightarrow> (\<forall>j<length anchors. ov j = 0)"
    using ok unfolding best_ok_def by blast
  have some: "score_idx s < length anchors \<and>
              score_score s = ov (score_idx s) \<and>
              score_score s \<noteq> 0 \<and>
              (\<forall>j<length anchors. ov j \<noteq> 0 \<longrightarrow> ov j \<le> score_score s) \<and>
              (\<forall>j<score_idx s. ov j \<noteq> score_score s) \<and>
              ((\<exists>j<length anchors. 0 < ov j) \<longrightarrow>
                 0 < score_score s \<and> (\<forall>j<length anchors. ov j \<le> score_score s))"
    if s: "B = Some s" for s
  proof -
    from ok s have 1: "score_idx s < length anchors" "score_score s = ov (score_idx s)"
      "score_score s \<noteq> 0"
      and mx: "\<And>j. j < length anchors \<Longrightarrow> ov j \<noteq> 0 \<Longrightarrow> ov j \<le> score_score s"
      and fst: "\<And>j. j < score_idx s \<Longrightarrow> ov j \<noteq> 0 \<Longrightarrow> ov j < score_score s"
      unfolding best_ok_def by blast+
    have e: "ov j \<noteq> score_score s" if "j < score_idx s" for j
      using fst [OF that] 1(3) by (cases "ov j = 0") auto
    have p: "0 < score_score s \<and> (\<forall>j<length anchors. ov j \<le> score_score s)"
      if "\<exists>j<length anchors. 0 < ov j"
    proof -
      from that obtain j where j: "j < length anchors" "0 < ov j" by blast
      with mx [of j] have pos: "0 < score_score s" by simp
      have "ov j' \<le> score_score s" if "j' < length anchors" for j'
        using mx [OF that] pos by (cases "ov j' = 0") auto
      with pos show ?thesis by blast
    qed
    from 1 mx e p show ?thesis by blast
  qed
  from run none some show ?thesis by blast
qed


theorem compute_overlap_best_witness:
  "compute_overlap prop2abs
     \<lparr>box_center = \<lparr>point_x = 1 / 4, point_y = 1 / 4\<rparr>,
      box_size = \<lparr>size_w = 1 / 2, size_h = 1 / 2\<rparr>\<rparr>
     [\<lparr>anchor_center = \<lparr>point_x = 3 / 4, point_y = 3 / 4\<rparr>,
       anchor_size = \<lparr>size_w = 1 / 2, size_h = 1 / 2\<rparr>,
       anchor_x = 1, anchor_y = 1, anchor_scale = 1 / 2, anchor_map = 0\<rparr>,
      \<lparr>anchor_center = \<lparr>point_x = 1 / 2, point_y = 1 / 4\<rparr>,
       anchor_size = \<lparr>size_w = 1 / 2, size_h = 1 / 2\<rparr>,
       anchor_x = 0, anchor_y = 0, anchor_scale = 1 / 2, anchor_map = 0\<rparr>,
      \<lparr>anchor_center = \<lparr>point_x = 1 / 4, point_y = 1 / 2\<rparr>,
       anchor_size = \<lparr>size_w = 1 / 2, size_h = 1 / 2\<rparr>,
       anchor_x = 0, anchor_y = 0, anchor_scale = 1 / 2, anchor_map = 0\<rparr>] (1 / 5)
   = Inr \<lparr>overlap_best = Some \<lparr>score_idx = 1, score_score = 1 / 3\<rparr>,
          overlap_good = [\<lparr>score_idx = 1, score_score = 1 / 3\<rparr>,
                          \<lparr>score_idx = 2, score_score = 1 / 3\<rparr>]\<rparr>"
proof -
  let ?box = "\<lparr>box_center = \<lparr>point_x = 1 / 4, point_y = 1 / 4\<rparr>,
      box_size = \<lparr>size_w = 1 / 2, size_h = 1 / 2\<rparr>\<rparr>"
  let ?as = "[\<lparr>anchor_center = \<lparr>point_x = 3 / 4, point_y = 3 / 4\<rparr>,
       anchor_size = \<lparr>size_w = 1 / 2, size_h = 1 / 2\<rparr>,
       anchor_x = 1, anchor_y = 1, anchor_scale = 1 / 2, anchor_map = 0\<rparr>,
      \<lparr>anchor_center = \<lparr>point_x = 1 / 2, point_y = 1 / 4\<rparr>,
       anchor_size = \<lparr>size_w = 1 / 2, size_h = 1 / 2\<rparr>,
       anchor_x = 0, anchor_y = 0, anchor_scale = 1 / 2, anchor_map = 0\<rparr>,
      \<lparr>anchor_center = \<lparr>point_x = 1 / 4, point_y = 1 / 2\<rparr>,
       anchor_size = \<lparr>size_w = 1 / 2, size_h = 1 / 2\<rparr>,
       anchor_x = 0, anchor_y = 0, anchor_scale = 1 / 2, anchor_map = 0\<rparr>]"
  let ?ov = "\<lambda>j::nat. if j = 0 then 0 else (1 / 3 :: real)"
  have h: "\<forall>j<length ?as.
      jaccard_overlap (prop2abs (box_center ?box) (box_size ?box) imgsize)
        (prop2abs (anchor_center (?as ! j)) (anchor_size (?as ! j)) imgsize) = Inr (?ov j)"
    by (simp add: prop2abs_def imgsize_def Let_def less_Suc_eq)
  from compute_overlap_best
    [where anchors = ?as and box = ?box and ov = ?ov and p2a = prop2abs and threshold = "1 / 5",
     OF h]
  have "\<exists>B G. compute_overlap prop2abs ?box ?as (1 / 5) =
           Inr \<lparr>overlap_best = B, overlap_good = G\<rparr> \<and> B \<noteq> None"
    by (auto simp: less_Suc_eq)
  then show ?thesis
    by (simp add: compute_overlap_def prop2abs_def imgsize_def Let_def)
qed


text \<open>
  C3 as stated, for every box and every anchor sequence, fails in two ways. A box of zero
  width against an anchor of zero height that crosses it makes \<open>jaccard_overlap\<close> divide
  by zero, and the call ends with that error and no \<open>best\<close> at all. A box of negative
  width can have a negative overlap with an anchor, and then \<open>best\<close> is present with a
  negative score, which is not a maximum positive overlap.
\<close>

theorem compute_overlap_best_counterexample:
  "compute_overlap prop2abs
     \<lparr>box_center = \<lparr>point_x = 1 / 2, point_y = 1 / 2\<rparr>,
      box_size = \<lparr>size_w = 0, size_h = 1 / 2\<rparr>\<rparr>
     [\<lparr>anchor_center = \<lparr>point_x = 1 / 2, point_y = 1 / 2\<rparr>,
       anchor_size = \<lparr>size_w = 1 / 2, size_h = 0\<rparr>,
       anchor_x = 0, anchor_y = 0, anchor_scale = 1 / 2, anchor_map = 0\<rparr>] (1 / 2)
   = Inl ZeroDivisionError \<and>
   compute_overlap prop2abs
     \<lparr>box_center = \<lparr>point_x = 1 / 200, point_y = 1 / 200\<rparr>,
      box_size = \<lparr>size_w = - (1 / 100), size_h = 1 / 100\<rparr>\<rparr>
     [\<lparr>anchor_center = \<lparr>point_x = 3 / 400, point_y = 1 / 200\<rparr>,
       anchor_size = \<lparr>size_w = 1 / 40, size_h = 1 / 100\<rparr>,
       anchor_x = 0, anchor_y = 0, anchor_scale = 1 / 40, anchor_map = 0\<rparr>] (1 / 2)
   = Inr \<lparr>overlap_best = Some \<lparr>score_idx = 0, score_score = - (2 / 5)\<rparr>, overlap_good = []\<rparr>"
  by (simp add: compute_overlap_def prop2abs_def imgsize_def Let_def)


text \<open>
  C4, as the code has it. With the overlaps \<open>ov j\<close> as above, \<open>good\<close> holds, in ascending
  order of the positions, the score of every anchor whose overlap is not zero and exceeds
  the threshold, and nothing else: an overlap equal to the threshold is left out. For a
  threshold that is not negative these are all the anchors whose overlap exceeds it.
\<close>

theorem compute_overlap_good:
  assumes "\<forall>j<length anchors.
             jaccard_overlap (p2a (box_center box) (box_size box) imgsize)
               (p2a (anchor_center (anchors ! j)) (anchor_size (anchors ! j)) imgsize) = Inr (ov j)"
  shows "\<exists>B G. compute_overlap p2a box anchors threshold =
                  Inr \<lparr>overlap_best = B, overlap_good = G\<rparr> \<and>
           G = map (\<lambda>j. \<lparr>score_idx = j, score_score = ov j\<rparr>)
                 (filter (\<lambda>j. ov j \<noteq> 0 \<and> threshold < ov j) [0..<length anchors]) \<and>
           (0 \<le> threshold \<longrightarrow>
              G = map (\<lambda>j. \<lparr>score_idx = j, score_score = ov j\<rparr>)
                    (filter (\<lambda>j. threshold < ov j) [0..<length anchors]))"
proof -
  from overlap_loop_invariant
    [where as = anchors and p2a = p2a and ov = ov and thr = threshold
       and bp = "p2a (box_center box) (box_size box) imgsize", OF assms]
  obtain B where run: "compute_overlap p2a box anchors threshold =
      Inr \<lparr>overlap_best = B,
           overlap_good = map (\<lambda>j. \<lparr>score_idx = j, score_score = ov j\<rparr>)
              (filter (\<lambda>j. ov j \<noteq> 0 \<and> threshold < ov j) [0..<length anchors])\<rparr>"
    unfolding compute_overlap_def Let_def by blast
  have "filter (\<lambda>j. ov j \<noteq> 0 \<and> threshold < ov j) xs = filter (\<lambda>j. threshold < ov j) xs"
    if "0 \<le> threshold" for xs
    using that by (intro filter_cong) auto
  with run show ?thesis by auto
qed


theorem compute_overlap_good_witness:
  "compute_overlap prop2abs
     \<lparr>box_center = \<lparr>point_x = 1 / 2, point_y = 1 / 2\<rparr>,
      box_size = \<lparr>size_w = 1 / 2, size_h = 1 / 2\<rparr>\<rparr>
     [\<lparr>anchor_center = \<lparr>point_x = 1 / 2, point_y = 1 / 2\<rparr>,
       anchor_size = \<lparr>size_w = 1 / 2, size_h = 1 / 2\<rparr>,
       anchor_x = 0, anchor_y = 0, anchor_scale = 1 / 2, anchor_map = 0\<rparr>,
      \<lparr>anchor_center = \<lparr>point_x = 1 / 8, point_y = 1 / 8\<rparr>,
       anchor_size = \<lparr>size_w = 1 / 4, size_h = 1 / 4\<rparr>,
       anchor_x = 0, anchor_y = 0, anchor_scale = 1 / 4, anchor_map = 0\<rparr>,
      \<lparr>anchor_center = \<lparr>point_x = 1 / 2, point_y = 1 / 2\<rparr>,
       anchor_size = \<lparr>size_w = 1, size_h = 1\<rparr>,
       anchor_x = 0, anchor_y = 0, anchor_scale = 1, anchor_map = 1\<rparr>,
      \<lparr>anchor_center = \<lparr>point_x = 3 / 4, point_y = 1 / 2\<rparr>,
       anchor_size = \<lparr>size_w = 1 / 2, size_h = 1 / 2\<rparr>,
       anchor_x = 1, anchor_y = 0, anchor_scale = 1 / 2, anchor_map = 0\<rparr>] (1 / 4)
   = Inr \<lparr>overlap_best = Some \<lparr>score_idx = 0, score_score = 1\<rparr>,
          overlap_good = [\<lparr>score_idx = 0, score_score = 1\<rparr>,
                          \<lparr>score_idx = 3, score_score = 1 / 3\<rparr>]\<rparr>"
proof -
  let ?box = "\<lparr>box_center = \<lparr>point_x = 1 / 2, point_y = 1 / 2\<rparr>,
      box_size = \<lparr>size_w = 1 / 2, size_h = 1 / 2\<rparr>\<rparr>"
  let ?as = "[\<lparr>anchor_center = \<lparr>point_x = 1 / 2, point_y = 1 / 2\<rparr>,
       anchor_size = \<lparr>size_w = 1 / 2, size_h = 1 / 2\<rparr>,
       anchor_x = 0, anchor_y = 0, anchor_scale = 1 / 2, anchor_map = 0\<rparr>,
      \<lparr>anchor_center = \<lparr>point_x = 1 / 8, point_y = 1 / 8\<rparr>,
       anchor_size = \<lparr>size_w = 1 / 4, size_h = 1 / 4\<rparr>,
       anchor_x = 0, anchor_y = 0, anchor_scale = 1 / 4, anchor_map = 0\<rparr>,
      \<lparr>anchor_center = \<lparr>point_x = 1 / 2, point_y = 1 / 2\<rparr>,
       anchor_size = \<lparr>size_w = 1, size_h = 1\<rparr>,
       anchor_x = 0, anchor_y = 0, anchor_scale = 1, anchor_map = 1\<rparr>,
      \<lparr>anchor_center = \<lparr>point_x = 3 / 4, point_y = 1 / 2\<rparr>,
       anchor_size = \<lparr>size_w = 1 / 2, size_h = 1 / 2\<rparr>,
       anchor_x = 1, anchor_y = 0, anchor_scale = 1 / 2, anchor_map = 0\<rparr>]"
  let ?ov = "\<lambda>j::nat. [1, 0, 1 / 4, 1 / 3 :: real] ! j"
  have h: "\<forall>j<length ?as.
      jaccard_overlap (prop2abs (box_center ?box) (box_size ?box) imgsize)
        (prop2abs (anchor_center (?as ! j)) (anchor_size (?as ! j)) imgsize) = Inr (?ov j)"
    by (simp add: prop2abs_def imgsize_def Let_def less_Suc_eq)
  have u: "[0..<4] = [0, 1, 2, 3]" by code_simp
  from compute_overlap_good
    [where anchors = ?as and box = ?box and ov = ?ov and p2a = prop2abs and threshold = "1 / 4",
     OF h]
  obtain B where run: "compute_overlap prop2abs ?box ?as (1 / 4) =
        Inr \<lparr>overlap_best = B,
             overlap_good = [\<lparr>score_idx = 0, score_score = 1\<rparr>,
                             \<lparr>score_idx = 3, score_score = 1 / 3\<rparr>]\<rparr>"
    by (auto simp: u)
  have "overlap_best (projr (compute_overlap prop2abs ?box ?as (1 / 4))) =
      Some \<lparr>score_idx = 0, score_score = 1\<rparr>"
    by (simp add: compute_overlap_def prop2abs_def imgsize_def Let_def)
  with run show ?thesis by simp
qed


text \<open>
  C4 as stated fails for a negative threshold: an anchor with the overlap 0 exceeds the
  threshold \<open>-1\<close>, but the loop skips an overlap of 0 before it compares, and \<open>good\<close> stays
  empty.
\<close>

theorem compute_overlap_good_counterexample:
  "jaccard_overlap
     (prop2abs \<lparr>point_x = 1 / 4, point_y = 1 / 4\<rparr> \<lparr>size_w = 1 / 2, size_h = 1 / 2\<rparr> imgsize)
     (prop2abs \<lparr>point_x = 3 / 4, point_y = 3 / 4\<rparr> \<lparr>size_w = 1 / 2, size_h = 1 / 2\<rparr> imgsize)
     = Inr 0 \<and>
   (- 1 :: real) < 0 \<and>
   compute_overlap prop2abs
     \<lparr>box_center = \<lparr>point_x = 1 / 4, point_y = 1 / 4\<rparr>,
      box_size = \<lparr>size_w = 1 / 2, size_h = 1 / 2\<rparr>\<rparr>
     [\<lparr>anchor_center = \<lparr>point_x = 3 / 4, point_y = 3 / 4\<rparr>,
       anchor_size = \<lparr>size_w = 1 / 2, size_h = 1 / 2\<rparr>,
       anchor_x = 1, anchor_y = 1, anchor_scale = 1 / 2, anchor_map = 0\<rparr>] (- 1)
   = Inr \<lparr>overlap_best = None, overlap_good = []\<rparr>"
  by (simp add: compute_overlap_def prop2abs_def imgsize_def Let_def)


end
